theory Spec2Isabelle
  imports Main "HOL-Library.AList" "HOL-Library.Multiset"
begin

section \<open>Data model of \<open>domain/submission.py\<close>\<close>

text \<open>
  Python strings are lists of characters, one \<^typ>\<open>char\<close> per character, so that
  \<open>len\<close> is \<^const>\<open>length\<close>. A \<open>datetime\<close> is a point on the (totally ordered) time
  line, an integer count of clock ticks. A \<open>dict\<close> is an association list in insertion
  order: \<^const>\<open>map_of\<close> is the lookup, \<^const>\<open>AList.update\<close> the item assignment (an
  existing key keeps its place, a new key goes last), the values in list order are
  \<open>dict.values()\<close>. The values are held by value: every projection that stores a
  request constructs it first, so no request object is stored under two keys.

  Several classes have fields of the same name (\<open>creator\<close>, \<open>created\<close>, \<open>status\<close>);
  the fields of \<open>Submission\<close> keep the bare names and the other records prefix theirs.
\<close>

type_synonym datetime = int

text \<open>
  The classes \<open>Agent\<close>, \<open>License\<close> and \<open>Classification\<close> live in modules that are not
  part of the sources at hand; an agent is represented by its \<open>agent_identifier\<close>, a
  license by its URI, a classification by its category. \<open>Proposal\<close>, \<open>Annotation\<close>,
  \<open>Flag\<close> and \<open>Comment\<close> are opaque.
\<close>

type_synonym agent = string
type_synonym license = string
type_synonym classification = string

typedecl proposal
typedecl annotation
typedecl flag
typedecl comment

record author =
  author_order :: int
  forename :: string
  surname :: string
  initials :: string
  affiliation :: string
  email :: string
  author_identifier :: "string option"
  display :: "string option"

text \<open>\<open>SubmissionContent.Format\<close>: \<open>PDF = "ps"\<close> has the value of \<open>POSTSCRIPT\<close>, which
  makes it an alias of that member.\<close>

datatype format = UNKNOWN | INVALID | TEX | PDFTEX | POSTSCRIPT | HTML

abbreviation PDF :: format where
  "PDF \<equiv> POSTSCRIPT"

record submission_content =
  content_identifier :: string
  content_checksum :: string
  content_size :: int
  source_format :: format

record submission_metadata =
  title :: "string option"
  abstract :: "string option"
  authors :: "author list"
  authors_display :: string
  doi :: "string option"
  msc_class :: "string option"
  acm_class :: "string option"
  report_num :: "string option"
  journal_ref :: "string option"
  metadata_comments :: string

record delegation =
  delegate :: agent
  delegation_creator :: agent
  delegation_created :: datetime

record hold =
  hold_event_id :: string
  hold_creator :: agent
  hold_created :: datetime
  hold_type :: string
  hold_reason :: "string option"

subsection \<open>Process status records and compilations\<close>

text \<open>
  Modelled from the spec: the class \<open>ProcessStatus\<close> (module \<open>domain/process.py\<close>, not
  among the sources). A record carries a process kind, a composite
  \<open>process_identifier\<close>, a creation timestamp and a status in
  \<open>{REQUESTED, SUCCEEDED, FAILED}\<close>. The process kinds are the asynchronous status
  providers the spec names: compilation, text extraction, classification.
\<close>

datatype process_kind = COMPILATION | PLAIN_TEXT_EXTRACTION | CLASSIFICATION

datatype process_state = REQUESTED | SUCCEEDED | FAILED

record process_status =
  process :: process_kind
  process_identifier :: string
  ps_created :: datetime
  ps_status :: process_state

text \<open>\<open>Compilation.Status\<close>.\<close>

datatype compilation_state = IN_PROGRESS | COMPILATION_SUCCEEDED | COMPILATION_FAILED

record compilation =
  source_id :: string
  checksum :: string
  output_format :: string
  start_time :: datetime
  end_time :: "datetime option"
  compilation_status :: compilation_state

subsection \<open>User requests\<close>

text \<open>The status values of \<open>UserRequest\<close> are class-level string constants.\<close>

definition PENDING :: string where
  "PENDING = ''pending''"

definition REJECTED :: string where
  "REJECTED = ''rejected''"

definition APPROVED :: string where
  "APPROVED = ''approved''"

definition APPLIED :: string where
  "APPLIED = ''applied''"

text \<open>The two subclasses of \<open>UserRequest\<close> with the field each one adds.\<close>

datatype request_variant =
    WithdrawalRequest "string option"
  | CrossListClassificationRequest "classification list"

record user_request =
  request_creator :: agent
  request_created :: datetime
  request_updated :: datetime
  request_status :: string
  request_variant :: request_variant

definition is_pending :: "user_request \<Rightarrow> bool" where
  "is_pending r = (request_status r = PENDING)"

definition is_approved :: "user_request \<Rightarrow> bool" where
  "is_approved r = (request_status r = APPROVED)"

definition is_applied :: "user_request \<Rightarrow> bool" where
  "is_applied r = (request_status r = APPLIED)"

definition is_rejected :: "user_request \<Rightarrow> bool" where
  "is_rejected r = (request_status r = REJECTED)"

definition is_active :: "user_request \<Rightarrow> bool" where
  "is_active r = (is_pending r \<or> is_approved r)"

subsection \<open>The submission aggregate\<close>

definition WORKING :: string where
  "WORKING = ''working''"

definition SUBMITTED :: string where
  "SUBMITTED = ''submitted''"

definition ON_HOLD :: string where
  "ON_HOLD = ''hold''"

definition SCHEDULED :: string where
  "SCHEDULED = ''scheduled''"

definition PUBLISHED :: string where
  "PUBLISHED = ''published''"

definition ERROR :: string where
  "ERROR = ''error''"

definition DELETED :: string where
  "DELETED = ''deleted''"

definition WITHDRAWN :: string where
  "WITHDRAWN = ''withdrawn''"

text \<open>
  The dataclass \<open>Submission\<close>, field by field. \<open>versions\<close> holds earlier published
  submissions; a record cannot contain itself, and nothing below reads the field, so a
  version is represented by its arXiv identifier.
\<close>

record submission =
  creator :: agent
  owner :: agent
  created :: "datetime option"
  updated :: "datetime option"
  source_content :: "submission_content option"
  primary_classification :: "classification option"
  delegations :: "(string \<times> delegation) list"
  proxy :: "agent option"
  client :: "agent option"
  submission_id :: "int option"
  metadata :: submission_metadata
  secondary_classification :: "classification list"
  submitter_contact_verified :: bool
  submitter_is_author :: "bool option"
  submitter_accepts_policy :: "bool option"
  submitter_confirmed_preview :: bool
  license :: "license option"
  status :: string
  arxiv_id :: "string option"
  version :: int
  reason_for_withdrawal :: "string option"
  versions :: "string list"
  user_requests :: "(string \<times> user_request) list"
  proposals :: "(string \<times> proposal) list"
  processes :: "process_status list"
  annotations :: "(string \<times> annotation) list"
  flags :: "(string \<times> flag) list"
  comments :: "(string \<times> comment) list"
  holds :: "(string \<times> hold) list"

text \<open>The status properties of \<open>Submission\<close>.\<close>

definition active :: "submission \<Rightarrow> bool" where
  "active s = (status s \<notin> set [DELETED, PUBLISHED])"

definition published :: "submission \<Rightarrow> bool" where
  "published s = (status s = PUBLISHED)"

definition finalized :: "submission \<Rightarrow> bool" where
  "finalized s = (status s \<notin> set [WORKING, DELETED])"

definition deleted :: "submission \<Rightarrow> bool" where
  "deleted s = (status s = DELETED)"

definition is_on_hold :: "submission \<Rightarrow> bool" where
  "is_on_hold s = (length (holds s) > 0 \<or> status s = ON_HOLD)"

definition active_user_requests :: "submission \<Rightarrow> user_request list" where
  "active_user_requests s = filter is_active (map snd (user_requests s))"

definition has_active_requests :: "submission \<Rightarrow> bool" where
  "has_active_requests s = (length (active_user_requests s) > 0)"

subsection \<open>Events and errors\<close>

text \<open>
  Modelled from the spec: the base class \<open>Event\<close> (module \<open>domain/event/event.py\<close>,
  not among the sources). An event has the acting agent, a creation timestamp, an
  optional owning submission identifier, the \<open>committed\<close> flag and the fields of its
  variant. The variants are those of \<open>domain/event/request.py\<close>, with their fields,
  and the creation event that \<open>save\<close> tests for. \<open>RequestCrossList\<close> is left out: its
  validation consults the category taxonomy.
\<close>

datatype payload =
    CreateSubmission
  | ApproveRequest "string option"
  | RejectRequest "string option"
  | ApplyRequest "string option"
  | RequestWithdrawal string

record event =
  event_creator :: agent
  event_created :: datetime
  event_submission_id :: "int option"
  committed :: bool
  payload :: payload

text \<open>
  The exceptions of the core and those of the interpreter that the modelled code can
  raise. \<open>InvalidEvent\<close> carries the offending event and the reason.
\<close>

datatype error =
    InvalidEvent event string
  | NoSuchSubmission
  | SaveError
  | InvalidStack
  | ValueError
  | KeyError
  | AttributeError
  | UnboundLocalError

section \<open>Compilations derived from the process records\<close>

text \<open>
  \<open>str.split("::")\<close>: the pieces between the leftmost non-overlapping occurrences of
  the separator. The first argument accumulates the current piece, reversed.
\<close>

fun split_colons :: "string \<Rightarrow> string \<Rightarrow> string list" where
  "split_colons acc [] = [rev acc]"
| "split_colons acc [c] = [rev (c # acc)]"
| "split_colons acc (c # d # cs) =
     (if c = CHR '':'' \<and> d = CHR '':'' then rev acc # split_colons [] cs
      else split_colons (c # acc) (d # cs))"

definition finished_states :: "process_state list" where
  "finished_states = [SUCCEEDED, FAILED]"

fun status_map :: "process_state \<Rightarrow> compilation_state" where
  "status_map REQUESTED = IN_PROGRESS"
| "status_map SUCCEEDED = COMPILATION_SUCCEEDED"
| "status_map FAILED = COMPILATION_FAILED"

text \<open>
  \<open>Compilation.from_processes\<close>. The result is \<open>None\<close> when there is no compilation
  record. Unpacking the split identifier into three names raises \<open>ValueError\<close> unless
  there are exactly three pieces. In the finished branch \<open>start_time\<close> is assigned in
  the loop over the reversed list, at the first record with the identifier of the
  latest one and status \<open>REQUESTED\<close>; when the loop finds none the name is unbound at
  the constructor call, which raises \<open>UnboundLocalError\<close>.
\<close>

definition from_processes :: "process_status list \<Rightarrow> error + compilation option" where
  "from_processes ps =
     (let processes = sort_key ps_created (filter (\<lambda>p. process p = COMPILATION) ps) in
      if processes = [] then Inr None
      else
        let latest = last processes in
        case split_colons [] (process_identifier latest) of
          [sid, csum, fmt] \<Rightarrow>
            if ps_status latest \<in> set finished_states then
              (case find (\<lambda>proc. process_identifier proc = process_identifier latest
                                  \<and> ps_status proc = REQUESTED) (rev processes) of
                 Some proc \<Rightarrow>
                   Inr (Some \<lparr>source_id = sid, checksum = csum, output_format = fmt,
                              start_time = ps_created proc,
                              end_time = Some (ps_created latest),
                              compilation_status = status_map (ps_status latest)\<rparr>)
               | None \<Rightarrow> Inl UnboundLocalError)
            else
              Inr (Some \<lparr>source_id = sid, checksum = csum, output_format = fmt,
                         start_time = ps_created latest,
                         end_time = None,
                         compilation_status = status_map (ps_status latest)\<rparr>)
        | _ \<Rightarrow> Inl ValueError)"

definition latest_compilation :: "submission \<Rightarrow> error + compilation option" where
  "latest_compilation s = from_processes (processes s)"

text \<open>
  The generator \<open>Submission.get_compilations\<close>: the loop over the sorted records, with
  \<open>on_deck\<close> as the first argument. Consuming the generator into a list either gives
  every yielded value or raises what the first failing \<open>from_processes\<close> raises.
\<close>

fun get_compilations_loop ::
  "process_status list \<Rightarrow> process_status list \<Rightarrow> error + compilation option list" where
  "get_compilations_loop on_deck [] =
     (if on_deck \<noteq> [] then
        (case from_processes on_deck of Inl e \<Rightarrow> Inl e | Inr c \<Rightarrow> Inr [c])
      else Inr [])"
| "get_compilations_loop on_deck (p # ps) =
     (if process p \<noteq> COMPILATION then get_compilations_loop on_deck ps
      else if on_deck \<noteq> []
              \<and> (ps_status (last on_deck) \<in> set finished_states
                 \<or> process_identifier p \<noteq> process_identifier (last on_deck)) then
        (case from_processes on_deck of
           Inl e \<Rightarrow> Inl e
         | Inr c \<Rightarrow>
             (case get_compilations_loop [p] ps of
                Inl e \<Rightarrow> Inl e
              | Inr cs \<Rightarrow> Inr (c # cs)))
      else get_compilations_loop (on_deck @ [p]) ps)"

definition get_compilations :: "submission \<Rightarrow> error + compilation option list" where
  "get_compilations s = get_compilations_loop [] (sort_key ps_created (processes s))"

definition compilations :: "submission \<Rightarrow> error + compilation option list" where
  "compilations s = get_compilations s"

section \<open>The environment of the core\<close>

text \<open>
  Modelled from the spec: what the core calls in modules of the repository that are
  not among the sources, taken as parameters and gathered in one record with the
  library functions that the code uses.
  \<^item> \<open>event_digest\<close> computes \<open>Event.event_id\<close>, which the spec describes as a pure
    function of the event's type, creator, payload and timestamp.
  \<^item> \<open>get_submission\<close> is \<open>classic.get_submission\<close>, which returns the current state
    and the history of a submission or raises; the store has type \<open>'st\<close>.
  \<^item> \<open>commit\<close> is \<open>Event.commit\<close> with \<open>classic.store_event\<close>: it persists the event
    with the projected state and returns the state after the rule engine has run,
    together with the consequent events, or raises. It reads the states that \<open>apply\<close>
    left on the event, which are arguments here.
  \<^item> \<open>sha1\<close> is the hex digest of \<open>hashlib\<close>, \<open>isoformat\<close> the method of \<open>datetime\<close>,
    \<open>py_hash\<close> the built-in \<open>hash\<close> on strings.
  \<^item> \<open>set_iter\<close> is the order in which a \<open>set\<close> yields its elements. The order
    depends on the hash table behind the set, which the lists that the set was built
    from determine: duplicates that were dropped on the way can change it. So it is a
    function of those lists and of the elements in insertion order.
\<close>

record 'st env =
  sha1 :: "string \<Rightarrow> string"
  isoformat :: "datetime \<Rightarrow> string"
  event_digest :: "string \<Rightarrow> agent \<Rightarrow> payload \<Rightarrow> datetime \<Rightarrow> string"
  py_hash :: "string \<Rightarrow> int"
  set_iter :: "event list list \<Rightarrow> event list \<Rightarrow> event list"
  get_submission :: "int \<Rightarrow> 'st \<Rightarrow> error + submission \<times> event list"
  commit :: "event \<Rightarrow> submission option \<Rightarrow> submission \<Rightarrow> 'st
              \<Rightarrow> (error + submission \<times> event list) \<times> 'st"

section \<open>Request events (\<open>domain/event/request.py\<close>)\<close>

text \<open>\<open>UserRequest.generate_request_id\<close> and \<open>request_id\<close>, with \<open>request_type\<close> the name
  of the request's class.\<close>

definition generate_request_id ::
  "'st env \<Rightarrow> datetime \<Rightarrow> string \<Rightarrow> agent \<Rightarrow> string" where
  "generate_request_id env t request_type c =
     sha1 env (isoformat env t @ '':'' @ request_type @ '':'' @ c)"

fun request_type :: "user_request \<Rightarrow> string" where
  "request_type r =
     (case request_variant r of
        WithdrawalRequest _ \<Rightarrow> ''WithdrawalRequest''
      | CrossListClassificationRequest _ \<Rightarrow> ''CrossListClassificationRequest'')"

definition request_id :: "'st env \<Rightarrow> user_request \<Rightarrow> string" where
  "request_id env r =
     generate_request_id env (request_created r) (request_type r) (request_creator r)"

text \<open>\<open>self.request_id not in submission.user_requests\<close> is the negation of this test;
  the keys of the dictionary are strings, so \<open>None\<close> is never among them.\<close>

fun request_in :: "string option \<Rightarrow> (string \<times> user_request) list \<Rightarrow> bool" where
  "request_in None reqs = False"
| "request_in (Some r) reqs = (map_of reqs r \<noteq> None)"

definition ApproveRequest_validate ::
  "event \<Rightarrow> string option \<Rightarrow> submission \<Rightarrow> error + unit" where
  "ApproveRequest_validate self rid s =
     (if \<not> request_in rid (user_requests s) then Inl (InvalidEvent self ''No such request'')
      else Inr ())"

text \<open>The projections assign the status of the stored request in place; a missing key
  raises \<open>KeyError\<close>.\<close>

definition ApproveRequest_project :: "string option \<Rightarrow> submission \<Rightarrow> error + submission" where
  "ApproveRequest_project rid s =
     (case rid of
        None \<Rightarrow> Inl KeyError
      | Some r \<Rightarrow>
          (case map_of (user_requests s) r of
             None \<Rightarrow> Inl KeyError
           | Some req \<Rightarrow>
               Inr (s\<lparr>user_requests :=
                       AList.update r (req\<lparr>request_status := APPROVED\<rparr>) (user_requests s)\<rparr>)))"

definition RejectRequest_validate ::
  "event \<Rightarrow> string option \<Rightarrow> submission \<Rightarrow> error + unit" where
  "RejectRequest_validate self rid s =
     (if \<not> request_in rid (user_requests s) then Inl (InvalidEvent self ''No such request'')
      else Inr ())"

definition RejectRequest_project :: "string option \<Rightarrow> submission \<Rightarrow> error + submission" where
  "RejectRequest_project rid s =
     (case rid of
        None \<Rightarrow> Inl KeyError
      | Some r \<Rightarrow>
          (case map_of (user_requests s) r of
             None \<Rightarrow> Inl KeyError
           | Some req \<Rightarrow>
               Inr (s\<lparr>user_requests :=
                       AList.update r (req\<lparr>request_status := REJECTED\<rparr>) (user_requests s)\<rparr>)))"

definition ApplyRequest_validate ::
  "event \<Rightarrow> string option \<Rightarrow> submission \<Rightarrow> error + unit" where
  "ApplyRequest_validate self rid s =
     (if \<not> request_in rid (user_requests s) then Inl (InvalidEvent self ''No such request'')
      else Inr ())"

definition ApplyRequest_project :: "string option \<Rightarrow> submission \<Rightarrow> error + submission" where
  "ApplyRequest_project rid s =
     (case rid of
        None \<Rightarrow> Inl KeyError
      | Some r \<Rightarrow>
          (case map_of (user_requests s) r of
             None \<Rightarrow> Inl KeyError
           | Some req \<Rightarrow>
               Inr (s\<lparr>user_requests :=
                       AList.update r (req\<lparr>request_status := APPLIED\<rparr>) (user_requests s)\<rparr>)))"

text \<open>
  Modelled from the spec: \<open>validators.no_active_requests\<close> (module
  \<open>domain/event/validators.py\<close>, not among the sources) fails with \<open>InvalidEvent\<close> when a
  request of the submission is active, that is \<open>PENDING\<close> or \<open>APPROVED\<close>. The test is
  \<open>Submission.has_active_requests\<close>.
\<close>

definition no_active_requests :: "event \<Rightarrow> submission \<Rightarrow> error + unit" where
  "no_active_requests ev s =
     (if has_active_requests s then Inl (InvalidEvent ev ''Must not have active requests'')
      else Inr ())"

definition MAX_LENGTH :: nat where
  "MAX_LENGTH = 400"

definition RequestWithdrawal_validate :: "event \<Rightarrow> string \<Rightarrow> submission \<Rightarrow> error + unit" where
  "RequestWithdrawal_validate self reason s =
     (case no_active_requests self s of
        Inl err \<Rightarrow> Inl err
      | Inr _ \<Rightarrow>
          if reason = [] then Inl (InvalidEvent self ''Provide a reason for the withdrawal'')
          else if length reason > MAX_LENGTH then
            Inl (InvalidEvent self ''Reason must be 400 characters or less'')
          else if \<not> published s then
            Inl (InvalidEvent self ''Submission must already be published'')
          else Inr ())"

definition RequestWithdrawal_project ::
  "'st env \<Rightarrow> event \<Rightarrow> string \<Rightarrow> submission \<Rightarrow> error + submission" where
  "RequestWithdrawal_project env self reason s =
     (let request = \<lparr>request_creator = event_creator self,
                     request_created = event_created self,
                     request_updated = event_created self,
                     request_status = PENDING,
                     request_variant = WithdrawalRequest (Some reason)\<rparr>
      in Inr (s\<lparr>user_requests :=
                 AList.update (request_id env request) request (user_requests s)\<rparr>))"

text \<open>
  Modelled from the spec: the creation event (\<open>CreateSubmission\<close>, not among the
  sources) needs no existing submission and produces the initial aggregate with the
  given creator as owner; every other field has the default of the dataclass
  \<open>Submission\<close>.
\<close>

definition CreateSubmission_project :: "event \<Rightarrow> submission" where
  "CreateSubmission_project self =
     \<lparr>creator = event_creator self, owner = event_creator self,
      created = Some (event_created self), updated = None,
      source_content = None, primary_classification = None, delegations = [],
      proxy = None, client = None, submission_id = None,
      metadata = \<lparr>title = None, abstract = None, authors = [], authors_display = [],
                  doi = None, msc_class = None, acm_class = None, report_num = None,
                  journal_ref = None, metadata_comments = []\<rparr>,
      secondary_classification = [], submitter_contact_verified = False,
      submitter_is_author = None, submitter_accepts_policy = None,
      submitter_confirmed_preview = False, license = None, status = WORKING,
      arxiv_id = None, version = 1, reason_for_withdrawal = None, versions = [],
      user_requests = [], proposals = [], processes = [], annotations = [], flags = [],
      comments = [], holds = []\<rparr>"

text \<open>The dispatch of \<open>validate\<close> and \<open>project\<close> on the class of the event.\<close>

definition validate :: "event \<Rightarrow> submission \<Rightarrow> error + unit" where
  "validate ev s =
     (case payload ev of
        CreateSubmission \<Rightarrow> Inr ()
      | ApproveRequest rid \<Rightarrow> ApproveRequest_validate ev rid s
      | RejectRequest rid \<Rightarrow> RejectRequest_validate ev rid s
      | ApplyRequest rid \<Rightarrow> ApplyRequest_validate ev rid s
      | RequestWithdrawal reason \<Rightarrow> RequestWithdrawal_validate ev reason s)"

definition project :: "'st env \<Rightarrow> event \<Rightarrow> submission \<Rightarrow> error + submission" where
  "project env ev s =
     (case payload ev of
        CreateSubmission \<Rightarrow> Inr (CreateSubmission_project ev)
      | ApproveRequest rid \<Rightarrow> ApproveRequest_project rid s
      | RejectRequest rid \<Rightarrow> RejectRequest_project rid s
      | ApplyRequest rid \<Rightarrow> ApplyRequest_project rid s
      | RequestWithdrawal reason \<Rightarrow> RequestWithdrawal_project env ev reason s)"

text \<open>
  Modelled from the spec: \<open>Event.apply\<close> (not among the sources) validates the event
  against the current state and then projects it. Without a state only the creation
  event applies; the request events read a field of the state, which raises
  \<open>AttributeError\<close> on \<open>None\<close>.
\<close>

definition apply_event :: "'st env \<Rightarrow> event \<Rightarrow> submission option \<Rightarrow> error + submission" where
  "apply_event env ev before =
     (case before of
        None \<Rightarrow>
          (case payload ev of
             CreateSubmission \<Rightarrow> Inr (CreateSubmission_project ev)
           | _ \<Rightarrow> Inl AttributeError)
      | Some s \<Rightarrow>
          (case validate ev s of
             Inl err \<Rightarrow> Inl err
           | Inr _ \<Rightarrow> project env ev s))"

section \<open>Event identity and the command handler (\<open>core.py\<close>)\<close>

text \<open>The name of the event's class.\<close>

fun event_type :: "payload \<Rightarrow> string" where
  "event_type CreateSubmission = ''CreateSubmission''"
| "event_type (ApproveRequest _) = ''ApproveRequest''"
| "event_type (RejectRequest _) = ''RejectRequest''"
| "event_type (ApplyRequest _) = ''ApplyRequest''"
| "event_type (RequestWithdrawal _) = ''RequestWithdrawal''"

text \<open>
  Modelled from the spec: the property \<open>Event.event_id\<close> (not among the sources), a
  function of the type, the creator, the payload and the creation timestamp of the
  event and of nothing else.
\<close>

definition event_id :: "'st env \<Rightarrow> event \<Rightarrow> string" where
  "event_id env ev =
     event_digest env (event_type (payload ev)) (event_creator ev) (payload ev)
       (event_created ev)"

text \<open>\<open>__hash__\<close> and \<open>__eq__\<close>, the same in every event class of \<open>request.py\<close>.\<close>

definition event_hash :: "'st env \<Rightarrow> event \<Rightarrow> int" where
  "event_hash env ev = py_hash env (event_id env ev)"

definition event_eq :: "'st env \<Rightarrow> event \<Rightarrow> event \<Rightarrow> bool" where
  "event_eq env ev other = (event_hash env ev = event_hash env other)"

text \<open>
  A \<open>set\<close> is the list of its elements in insertion order. Adding an element that
  compares equal to a member changes nothing: the member stays. \<open>set(xs)\<close> adds the
  elements of \<open>xs\<close> one by one, and \<open>a | b\<close> adds the elements of \<open>b\<close> to a copy of
  \<open>a\<close>, so an element of \<open>a\<close> wins over an equal one of \<open>b\<close>.
\<close>

fun set_add :: "('a \<Rightarrow> 'a \<Rightarrow> bool) \<Rightarrow> 'a list \<Rightarrow> 'a \<Rightarrow> 'a list" where
  "set_add eq [] x = [x]"
| "set_add eq (y # ys) x = (if eq y x then y # ys else y # set_add eq ys x)"

definition py_set :: "('a \<Rightarrow> 'a \<Rightarrow> bool) \<Rightarrow> 'a list \<Rightarrow> 'a list" where
  "py_set eq xs = foldl (set_add eq) [] xs"

definition set_union :: "('a \<Rightarrow> 'a \<Rightarrow> bool) \<Rightarrow> 'a list \<Rightarrow> 'a list \<Rightarrow> 'a list" where
  "set_union eq a b = foldl (set_add eq) a b"

text \<open>\<open>sorted(set(prior) | set(events), key=lambda e: e.created)\<close>: the built-in sort is
  stable, as \<^const>\<open>sort_key\<close> is.\<close>

definition merged_events :: "'st env \<Rightarrow> event list \<Rightarrow> event list \<Rightarrow> event list" where
  "merged_events env prior events =
     sort_key event_created
       (set_iter env [prior, events]
          (set_union (event_eq env) (py_set (event_eq env) prior)
             (py_set (event_eq env) events)))"

text \<open>Iterating over a set yields each of its elements once, in whatever order and
  however the set was built.\<close>

definition iterates :: "'st env \<Rightarrow> bool" where
  "iterates env = (\<forall>built xs. mset (set_iter env built xs) = mset xs)"

text \<open>
  The head of \<open>save\<close>: the state and the history of a known submission are read from
  the store; without an identifier the first event has to be a creation or carry an
  identifier, and there is neither a state nor a history.
\<close>

definition load_prior ::
  "'st env \<Rightarrow> event list \<Rightarrow> int option \<Rightarrow> 'st
     \<Rightarrow> error + submission option \<times> event list" where
  "load_prior env events sid st =
     (case sid of
        Some i \<Rightarrow>
          (case get_submission env i st of
             Inl err \<Rightarrow> Inl err
           | Inr (before, prior) \<Rightarrow> Inr (Some before, prior))
      | None \<Rightarrow>
          if event_submission_id (hd events) = None
             \<and> payload (hd events) \<noteq> CreateSubmission
          then Inl NoSuchSubmission
          else Inr (None, []))"

text \<open>The first statement of the loop body fills in a missing identifier.\<close>

definition fill_submission_id :: "int option \<Rightarrow> event \<Rightarrow> event" where
  "fill_submission_id sid ev =
     (if event_submission_id ev = None \<and> sid \<noteq> None
      then ev\<lparr>event_submission_id := sid\<rparr> else ev)"

text \<open>
  The loop of \<open>save\<close> over the remaining events, with \<open>before\<close>, \<open>applied\<close> and the
  store as its state. An exception leaves the loop with the store as it is at that
  point. An event that \<open>commit\<close> has persisted is marked committed; the list \<open>applied\<close>
  holds the same object.
\<close>

fun save_loop ::
  "'st env \<Rightarrow> int option \<Rightarrow> event list \<Rightarrow> submission option \<Rightarrow> event list \<Rightarrow> 'st
     \<Rightarrow> (error + submission option \<times> event list) \<times> 'st" where
  "save_loop env sid [] before applied st = (Inr (before, applied), st)"
| "save_loop env sid (ev # evs) before applied st =
     (let event = fill_submission_id sid ev
      in case apply_event env event before of
           Inl err \<Rightarrow> (Inl err, st)
         | Inr after \<Rightarrow>
             if \<not> committed event then
               (case commit env event before after st of
                  (Inl err, st') \<Rightarrow> (Inl err, st')
                | (Inr (after', consequent_events), st') \<Rightarrow>
                    save_loop env sid evs (Some after')
                      (applied @ [event\<lparr>committed := True\<rparr>] @ consequent_events) st')
             else save_loop env sid evs (Some after) (applied @ [event]) st)"

text \<open>
  \<open>save\<close>. The result pairs what the call returns or raises with the store it leaves
  behind. The name \<open>after\<close> is bound by the first pass through the loop.
\<close>

definition save ::
  "'st env \<Rightarrow> event list \<Rightarrow> int option \<Rightarrow> 'st
     \<Rightarrow> (error + submission \<times> event list) \<times> 'st" where
  "save env events sid st =
     (if length events = 0 then (Inl ValueError, st)
      else
        case load_prior env events sid st of
          Inl err \<Rightarrow> (Inl err, st)
        | Inr (before, prior) \<Rightarrow>
            (case save_loop env sid (merged_events env prior events) before [] st of
               (Inl err, st') \<Rightarrow> (Inl err, st')
             | (Inr (None, applied), st') \<Rightarrow> (Inl UnboundLocalError, st')
             | (Inr (Some after, applied), st') \<Rightarrow>
                 (Inr (after,
                       sort_key event_created
                         (set_iter env [applied] (py_set (event_eq env) applied))), st')))"

section \<open>An event store and an environment to run the core on\<close>

text \<open>
  Modelled from the spec: an event store with the three operations of the store
  contract. A row is an appended event with the state that resulted;
  \<open>events_for\<close> and the latest state of a submission read the rows of its identifier,
  and a submission without rows does not exist. The rule engine is switched off
  (\<open>ENABLE_CALLBACKS\<close> is \<open>0\<close>, the default that \<open>init_app\<close> sets), so \<open>commit\<close> returns
  no consequent events. A submission that has no identifier yet gets a fresh one.
\<close>

type_synonym store = "(event \<times> submission) list"

definition store_get_submission :: "int \<Rightarrow> store \<Rightarrow> error + submission \<times> event list" where
  "store_get_submission i st =
     (let rows = filter (\<lambda>row. submission_id (snd row) = Some i) st in
      if rows = [] then Inl NoSuchSubmission
      else Inr (snd (last rows), map fst rows))"

definition store_commit ::
  "event \<Rightarrow> submission option \<Rightarrow> submission \<Rightarrow> store
     \<Rightarrow> (error + submission \<times> event list) \<times> store" where
  "store_commit ev before after st =
     (let i = (case event_submission_id ev of
                 Some j \<Rightarrow> j
               | None \<Rightarrow>
                   (case submission_id after of
                      Some j \<Rightarrow> j
                    | None \<Rightarrow> int (length st) + 1));
          after' = after\<lparr>submission_id := Some i\<rparr>
      in (Inr (after', []),
          st @ [(ev\<lparr>event_submission_id := Some i, committed := True\<rparr>, after')]))"

text \<open>Stand-ins for the library functions: a polynomial string hash, timestamps written
  in unary, digests that are the hashed text itself. Sets iterate in insertion order,
  however they were built.\<close>

fun payload_text :: "payload \<Rightarrow> string" where
  "payload_text CreateSubmission = []"
| "payload_text (ApproveRequest rid) = (case rid of None \<Rightarrow> [] | Some r \<Rightarrow> r)"
| "payload_text (RejectRequest rid) = (case rid of None \<Rightarrow> [] | Some r \<Rightarrow> r)"
| "payload_text (ApplyRequest rid) = (case rid of None \<Rightarrow> [] | Some r \<Rightarrow> r)"
| "payload_text (RequestWithdrawal reason) = reason"

definition example_env :: "store env" where
  "example_env =
     \<lparr>sha1 = (\<lambda>s. s),
      isoformat = (\<lambda>t. replicate (nat t) CHR ''I''),
      event_digest = (\<lambda>ty c p t. ty @ '':'' @ c @ '':'' @ payload_text p @ '':''
                                  @ replicate (nat t) CHR ''I''),
      py_hash = (\<lambda>s. foldl (\<lambda>h c. 31 * h + of_char c) 0 s),
      set_iter = (\<lambda>built xs. xs),
      get_submission = store_get_submission,
      commit = store_commit\<rparr>"

section \<open>Example data\<close>

text \<open>A creation event and the aggregate it produces, the base of the examples.\<close>

definition example_creation :: event where
  "example_creation =
     \<lparr>event_creator = ''user-1234'', event_created = 1, event_submission_id = None,
      committed = False, payload = CreateSubmission\<rparr>"

definition example_submission :: submission where
  "example_submission = CreateSubmission_project example_creation"

text \<open>Two compilation attempts: requested twice and succeeded for one identifier, then
  requested and failed for another.\<close>

definition compilation_record :: "string \<Rightarrow> datetime \<Rightarrow> process_state \<Rightarrow> process_status" where
  "compilation_record ident t st =
     \<lparr>process = COMPILATION, process_identifier = ident, ps_created = t, ps_status = st\<rparr>"

definition grouping_example :: submission where
  "grouping_example =
     example_submission
       \<lparr>processes :=
          [compilation_record ''123::a9s9k::pdf'' 10 REQUESTED,
           compilation_record ''123::a9s9k::pdf'' 20 REQUESTED,
           compilation_record ''123::a9s9k::pdf'' 30 SUCCEEDED,
           compilation_record ''123::b7t7m::pdf'' 40 REQUESTED,
           compilation_record ''123::b7t7m::pdf'' 50 FAILED]\<rparr>"

text \<open>A submission whose only process record is a text extraction, and one whose only
  compilation record reports success without a request on record.\<close>

definition extraction_only_example :: submission where
  "extraction_only_example =
     example_submission
       \<lparr>processes :=
          [\<lparr>process = PLAIN_TEXT_EXTRACTION, process_identifier = ''123::a9s9k'',
            ps_created = 10, ps_status = SUCCEEDED\<rparr>]\<rparr>"

definition unrequested_example :: "process_status list" where
  "unrequested_example = [compilation_record ''123::a9s9k::pdf'' 30 SUCCEEDED]"

text \<open>A published submission, and one with a withdrawal request of a given status
  stored under the key \<open>r1\<close>.\<close>

definition published_example :: submission where
  "published_example = example_submission\<lparr>status := PUBLISHED\<rparr>"

definition withdrawal_request :: "string \<Rightarrow> user_request" where
  "withdrawal_request st =
     \<lparr>request_creator = ''user-1234'', request_created = 5, request_updated = 5,
      request_status = st, request_variant = WithdrawalRequest (Some ''wrong file'')\<rparr>"

definition submission_with_request :: "string \<Rightarrow> submission" where
  "submission_with_request st =
     example_submission
       \<lparr>status := PUBLISHED, user_requests := [(''r1'', withdrawal_request st)]\<rparr>"

text \<open>A fresh event of the same user with a given timestamp and payload.\<close>

definition example_event :: "datetime \<Rightarrow> payload \<Rightarrow> event" where
  "example_event t p =
     \<lparr>event_creator = ''user-1234'', event_created = t, event_submission_id = None,
      committed = False, payload = p\<rparr>"

text \<open>
  The store after the creation event has been saved: one row, the event marked
  committed, event and state with the identifier 1.
\<close>

definition stored_creation :: event where
  "stored_creation = example_creation\<lparr>event_submission_id := Some 1, committed := True\<rparr>"

definition stored_submission :: submission where
  "stored_submission = example_submission\<lparr>submission_id := Some 1\<rparr>"

definition example_store :: store where
  "example_store = [(stored_creation, stored_submission)]"

text \<open>An approval and a rejection of the request \<open>r1\<close> with the same timestamp, and a
  later rejection.\<close>

definition approve_r1 :: event where
  "approve_r1 = example_event 7 (ApproveRequest (Some ''r1''))"

definition reject_r1 :: event where
  "reject_r1 = example_event 7 (RejectRequest (Some ''r1''))"

definition late_reject_r1 :: event where
  "late_reject_r1 = example_event 9 (RejectRequest (Some ''r1''))"

text \<open>An environment whose sets yield their elements in insertion order when no
  duplicate was dropped while they were built, and in the opposite order otherwise: a
  stand-in for a hash table whose layout the dropped duplicates change.\<close>

definition layout_env :: "store env" where
  "layout_env =
     example_env
       \<lparr>set_iter := (\<lambda>built xs. if length (concat built) = length xs then xs else rev xs)\<rparr>"

section \<open>Status predicates\<close>

lemmas example_defs = example_submission_def CreateSubmission_project_def
  example_creation_def compilation_record_def published_example_def
  withdrawal_request_def submission_with_request_def example_event_def
  stored_creation_def stored_submission_def example_store_def
  approve_r1_def reject_r1_def late_reject_r1_def

text \<open>
  Claim C8. For every submission, \<open>published\<close> holds iff the status is \<open>PUBLISHED\<close>,
  \<open>deleted\<close> iff it is \<open>DELETED\<close>, \<open>finalized\<close> iff it is neither \<open>WORKING\<close> nor
  \<open>DELETED\<close>, \<open>active\<close> iff it is neither \<open>DELETED\<close> nor \<open>PUBLISHED\<close>, and
  \<open>is_on_hold\<close> iff there is a hold or the status is \<open>ON_HOLD\<close>.
\<close>

theorem status_predicates:
  "(published s \<longleftrightarrow> status s = PUBLISHED)
   \<and> (deleted s \<longleftrightarrow> status s = DELETED)
   \<and> (finalized s \<longleftrightarrow> status s \<notin> {WORKING, DELETED})
   \<and> (active s \<longleftrightarrow> status s \<notin> {DELETED, PUBLISHED})
   \<and> (is_on_hold s \<longleftrightarrow> length (holds s) > 0 \<or> status s = ON_HOLD)"
  by (simp add: published_def deleted_def finalized_def active_def is_on_hold_def)

section \<open>Compilations\<close>

text \<open>The generator skips the records of other processes, so it may as well run on
  the compilation records alone.\<close>

lemma get_compilations_loop_filter:
  "get_compilations_loop on_deck (filter (\<lambda>p. process p = COMPILATION) xs)
     = get_compilations_loop on_deck xs"
  by (induction xs arbitrary: on_deck) (simp_all split: sum.splits)

text \<open>On a run of compilation records that is already in timestamp order, with a
  well-formed identifier on the last record, \<open>from_processes\<close> is its second half.\<close>

lemma from_processes_sorted:
  assumes "\<forall>p \<in> set ps. process p = COMPILATION" "sorted (map ps_created ps)" "ps \<noteq> []"
    "split_colons [] (process_identifier (last ps)) = [a, b, c]"
  shows "from_processes ps =
     (if ps_status (last ps) \<in> set finished_states then
        (case find (\<lambda>proc. process_identifier proc = process_identifier (last ps)
                            \<and> ps_status proc = REQUESTED) (rev ps) of
           Some proc \<Rightarrow>
             Inr (Some \<lparr>source_id = a, checksum = b, output_format = c,
                        start_time = ps_created proc,
                        end_time = Some (ps_created (last ps)),
                        compilation_status = status_map (ps_status (last ps))\<rparr>)
         | None \<Rightarrow> Inl UnboundLocalError)
      else
        Inr (Some \<lparr>source_id = a, checksum = b, output_format = c,
                   start_time = ps_created (last ps),
                   end_time = None,
                   compilation_status = status_map (ps_status (last ps))\<rparr>))"
proof -
  have f: "filter (\<lambda>p. process p = COMPILATION) ps = ps"
    using assms(1) by simp
  have s: "sort_key ps_created ps = ps"
    using assms(2) by (rule sort_key_id_if_sorted)
  show ?thesis
    unfolding from_processes_def f s Let_def using assms(3,4) by simp
qed

text \<open>
  Claim C3, as the code has it. Let the compilation records of a submission be, in
  timestamp order, \<open>REQUESTED\<close>, \<open>REQUESTED\<close>, \<open>SUCCEEDED\<close> for an identifier \<open>x\<close> and
  then \<open>REQUESTED\<close>, \<open>FAILED\<close> for a different identifier \<open>y\<close>, both identifiers of the
  form \<open>source::checksum::format\<close>. Then \<open>compilations\<close> is a list of exactly two
  records. The first has succeeded, ends at the timestamp of the \<open>SUCCEEDED\<close> record and
  starts at the timestamp of the latest \<open>REQUESTED\<close> record of \<open>x\<close>, the second of the
  two; the second has failed.
\<close>

theorem compilation_grouping:
  assumes stream:
      "filter (\<lambda>p. process p = COMPILATION) (sort_key ps_created (processes s))
         = [p1, p2, p3, p4, p5]"
    and ids: "process_identifier p1 = x" "process_identifier p2 = x"
      "process_identifier p3 = x" "process_identifier p4 = y" "process_identifier p5 = y"
      "x \<noteq> y"
    and sts: "ps_status p1 = REQUESTED" "ps_status p2 = REQUESTED"
      "ps_status p3 = SUCCEEDED" "ps_status p4 = REQUESTED" "ps_status p5 = FAILED"
    and px: "split_colons [] x = [sx, cx, fx]"
    and py: "split_colons [] y = [sy, cy, fy]"
  shows "compilations s =
     Inr [Some \<lparr>source_id = sx, checksum = cx, output_format = fx,
                 start_time = ps_created p2, end_time = Some (ps_created p3),
                 compilation_status = COMPILATION_SUCCEEDED\<rparr>,
          Some \<lparr>source_id = sy, checksum = cy, output_format = fy,
                 start_time = ps_created p4, end_time = Some (ps_created p5),
                 compilation_status = COMPILATION_FAILED\<rparr>]"
proof -
  let ?all = "[p1, p2, p3, p4, p5]"
  let ?sorted = "sort_key ps_created (processes s)"
  have comp: "\<forall>p \<in> set ?all. process p = COMPILATION"
  proof
    fix p assume "p \<in> set ?all"
    then have "p \<in> set (filter (\<lambda>p. process p = COMPILATION) ?sorted)"
      using stream by simp
    then show "process p = COMPILATION" by simp
  qed
  have "sorted (map ps_created (filter (\<lambda>p. process p = COMPILATION) ?sorted))"
    by (rule sorted_filter) simp
  then have srt: "sorted (map ps_created ?all)"
    using stream by simp
  have first: "from_processes [p1, p2, p3] =
      Inr (Some \<lparr>source_id = sx, checksum = cx, output_format = fx,
                 start_time = ps_created p2, end_time = Some (ps_created p3),
                 compilation_status = COMPILATION_SUCCEEDED\<rparr>)"
    using comp srt ids sts px
    by (subst from_processes_sorted [where a = sx and b = cx and c = fx])
       (simp_all add: finished_states_def)
  have second: "from_processes [p4, p5] =
      Inr (Some \<lparr>source_id = sy, checksum = cy, output_format = fy,
                 start_time = ps_created p4, end_time = Some (ps_created p5),
                 compilation_status = COMPILATION_FAILED\<rparr>)"
    using comp srt ids sts py
    by (subst from_processes_sorted [where a = sy and b = cy and c = fy])
       (simp_all add: finished_states_def)
  have "compilations s = get_compilations_loop [] ?all"
    unfolding compilations_def get_compilations_def
    using get_compilations_loop_filter [of "[]" ?sorted] stream
    by simp
  also have "\<dots> = get_compilations_loop [p1, p2, p3] [p4, p5]"
    using comp ids sts by (simp add: finished_states_def)
  also have "\<dots> =
      (case get_compilations_loop [p4] [p5] of
         Inl e \<Rightarrow> Inl e
       | Inr cs \<Rightarrow>
           Inr (Some \<lparr>source_id = sx, checksum = cx, output_format = fx,
                      start_time = ps_created p2, end_time = Some (ps_created p3),
                      compilation_status = COMPILATION_SUCCEEDED\<rparr> # cs))"
    using comp sts first by (simp add: finished_states_def)
  also have "get_compilations_loop [p4] [p5] = get_compilations_loop [p4, p5] []"
    using comp ids sts by (simp add: finished_states_def)
  also have "\<dots> = Inr [Some \<lparr>source_id = sy, checksum = cy, output_format = fy,
                 start_time = ps_created p4, end_time = Some (ps_created p5),
                 compilation_status = COMPILATION_FAILED\<rparr>]"
    using second by simp
  finally show ?thesis by simp
qed

theorem compilation_grouping_witness:
  "compilations grouping_example =
     Inr [Some \<lparr>source_id = ''123'', checksum = ''a9s9k'', output_format = ''pdf'',
                 start_time = 20, end_time = Some 30,
                 compilation_status = COMPILATION_SUCCEEDED\<rparr>,
          Some \<lparr>source_id = ''123'', checksum = ''b7t7m'', output_format = ''pdf'',
                 start_time = 40, end_time = Some 50,
                 compilation_status = COMPILATION_FAILED\<rparr>]"
  using compilation_grouping [of grouping_example
      "compilation_record ''123::a9s9k::pdf'' 10 REQUESTED"
      "compilation_record ''123::a9s9k::pdf'' 20 REQUESTED"
      "compilation_record ''123::a9s9k::pdf'' 30 SUCCEEDED"
      "compilation_record ''123::b7t7m::pdf'' 40 REQUESTED"
      "compilation_record ''123::b7t7m::pdf'' 50 FAILED"
      "''123::a9s9k::pdf''" "''123::b7t7m::pdf''"
      "''123''" "''a9s9k''" "''pdf''" "''123''" "''b7t7m''" "''pdf''"]
  by (simp add: grouping_example_def example_defs)

text \<open>
  Claim C3 as the spec words it asks for the start time of the first compilation to be
  the timestamp of the earliest \<open>REQUESTED\<close> record. On the example the records are
  stamped 10 to 50, the earliest request is the one at 10, and the first compilation
  starts at 20.
\<close>

theorem compilation_grouping_counterexample:
  "map ps_status (processes grouping_example)
     = [REQUESTED, REQUESTED, SUCCEEDED, REQUESTED, FAILED]
   \<and> map ps_created (processes grouping_example) = [10, 20, 30, 40, 50]
   \<and> map process_identifier (processes grouping_example)
     = [''123::a9s9k::pdf'', ''123::a9s9k::pdf'', ''123::a9s9k::pdf'',
        ''123::b7t7m::pdf'', ''123::b7t7m::pdf'']
   \<and> compilations grouping_example =
     Inr [Some \<lparr>source_id = ''123'', checksum = ''a9s9k'', output_format = ''pdf'',
                 start_time = 20, end_time = Some 30,
                 compilation_status = COMPILATION_SUCCEEDED\<rparr>,
          Some \<lparr>source_id = ''123'', checksum = ''b7t7m'', output_format = ''pdf'',
                 start_time = 40, end_time = Some 50,
                 compilation_status = COMPILATION_FAILED\<rparr>]"
  by (simp add: grouping_example_def example_defs compilations_def get_compilations_def
        from_processes_def finished_states_def)

text \<open>Without a request on record among the compilation records, a finished latest
  record leaves \<open>start_time\<close> unassigned.\<close>

lemma from_processes_unrequested:
  assumes cs: "cs = sort_key ps_created (filter (\<lambda>p. process p = COMPILATION) ps)"
    and ne: "cs \<noteq> []"
    and fin: "ps_status (last cs) \<in> {SUCCEEDED, FAILED}"
    and none: "\<not> (\<exists>p \<in> set cs. process_identifier p = process_identifier (last cs)
                     \<and> ps_status p = REQUESTED)"
  shows "from_processes ps =
           (if length (split_colons [] (process_identifier (last cs))) = 3
            then Inl UnboundLocalError else Inl ValueError)"
proof -
  have f: "find (\<lambda>proc. process_identifier proc = process_identifier (last cs)
                        \<and> ps_status proc = REQUESTED) (rev cs) = None"
    using none by (simp add: find_None_iff)
  have fin': "ps_status (last cs) \<in> set finished_states"
    using fin by (simp add: finished_states_def)
  show ?thesis
  proof (cases "split_colons [] (process_identifier (last cs))")
    case Nil
    then show ?thesis
      using ne by (simp add: from_processes_def cs [symmetric])
  next
    case (Cons a as)
    note c1 = this
    show ?thesis
    proof (cases as)
      case Nil
      then show ?thesis
        using ne c1 by (simp add: from_processes_def cs [symmetric])
    next
      case (Cons b bs)
      note c2 = this
      show ?thesis
      proof (cases bs)
        case Nil
        then show ?thesis
          using ne c1 c2 by (simp add: from_processes_def cs [symmetric])
      next
        case (Cons c ds)
        then show ?thesis
          using ne c1 c2 f fin'
          by (cases ds) (simp_all add: from_processes_def cs [symmetric])
      qed
    qed
  qed
qed

text \<open>
  Claim C9. Let the last compilation record in creation-time order have status
  \<open>SUCCEEDED\<close> or \<open>FAILED\<close>, and let no record of the list have its identifier together
  with status \<open>REQUESTED\<close>. Then \<open>from_processes\<close> does not return: \<open>start_time\<close> is
  never assigned, so the call raises \<open>UnboundLocalError\<close>, unless the identifier does
  not split into three pieces, which raises \<open>ValueError\<close> before that.
\<close>

theorem from_processes_start_time_unbound:
  assumes cs: "cs = sort_key ps_created (filter (\<lambda>p. process p = COMPILATION) ps)"
    and ne: "cs \<noteq> []"
    and fin: "ps_status (last cs) \<in> {SUCCEEDED, FAILED}"
    and none: "\<not> (\<exists>p \<in> set ps. process_identifier p = process_identifier (last cs)
                     \<and> ps_status p = REQUESTED)"
  shows "from_processes ps =
           (if length (split_colons [] (process_identifier (last cs))) = 3
            then Inl UnboundLocalError else Inl ValueError)"
proof -
  have "set cs \<subseteq> set ps"
    using cs by auto
  then have "\<not> (\<exists>p \<in> set cs. process_identifier p = process_identifier (last cs)
                     \<and> ps_status p = REQUESTED)"
    using none by blast
  then show ?thesis
    using cs ne fin by (rule from_processes_unrequested [rotated 3])
qed

theorem from_processes_start_time_unbound_witness:
  "from_processes unrequested_example = Inl UnboundLocalError"
  using from_processes_start_time_unbound [of unrequested_example unrequested_example]
  by (simp add: unrequested_example_def compilation_record_def)

text \<open>
  Claim C10. When no record of the submission's process list is a compilation record,
  \<open>latest_compilation\<close> returns \<open>None\<close>: neither a compilation nor an error.
\<close>

theorem latest_compilation_none:
  assumes "\<forall>p \<in> set (processes s). process p \<noteq> COMPILATION"
  shows "latest_compilation s = Inr None"
proof -
  have "filter (\<lambda>p. process p = COMPILATION) (processes s) = []"
    using assms by (simp add: filter_empty_conv)
  then show ?thesis
    by (simp add: latest_compilation_def from_processes_def)
qed

theorem latest_compilation_none_witness:
  "latest_compilation extraction_only_example = Inr None
   \<and> latest_compilation example_submission = Inr None"
  using latest_compilation_none [of extraction_only_example]
    latest_compilation_none [of example_submission]
  by (simp add: extraction_only_example_def example_defs)

section \<open>Request events\<close>

text \<open>
  Claim C6. Validating a withdrawal request succeeds exactly when the submission has
  no active request, the reason is not empty and has at most 400 characters, and the
  submission is published; in every other case it fails with \<open>InvalidEvent\<close>. A request
  is active when its status is \<open>PENDING\<close> or \<open>APPROVED\<close>. In particular a reason of 401
  characters fails, and one of 400 characters succeeds on a published submission
  without active requests.
\<close>

theorem withdrawal_preconditions:
  "(RequestWithdrawal_validate ev reason s = Inr () \<longleftrightarrow>
      \<not> has_active_requests s \<and> reason \<noteq> [] \<and> length reason \<le> 400 \<and> published s)
   \<and> ((\<exists>msg. RequestWithdrawal_validate ev reason s = Inl (InvalidEvent ev msg)) \<longleftrightarrow>
      has_active_requests s \<or> reason = [] \<or> length reason > 400 \<or> \<not> published s)
   \<and> (has_active_requests s \<longleftrightarrow>
        (\<exists>req \<in> snd ` set (user_requests s).
           request_status req = PENDING \<or> request_status req = APPROVED))
   \<and> (length reason = 401 \<longrightarrow>
        (\<exists>msg. RequestWithdrawal_validate ev reason s = Inl (InvalidEvent ev msg)))
   \<and> (length reason = 400 \<and> published s \<and> \<not> has_active_requests s \<longrightarrow>
        RequestWithdrawal_validate ev reason s = Inr ())"
proof -
  have ok: "RequestWithdrawal_validate ev reason s = Inr () \<longleftrightarrow>
      \<not> has_active_requests s \<and> reason \<noteq> [] \<and> length reason \<le> 400 \<and> published s"
    by (auto simp: RequestWithdrawal_validate_def no_active_requests_def MAX_LENGTH_def)
  have bad: "(\<exists>msg. RequestWithdrawal_validate ev reason s = Inl (InvalidEvent ev msg)) \<longleftrightarrow>
      has_active_requests s \<or> reason = [] \<or> length reason > 400 \<or> \<not> published s"
    by (auto simp: RequestWithdrawal_validate_def no_active_requests_def MAX_LENGTH_def)
  have act: "has_active_requests s \<longleftrightarrow>
        (\<exists>req \<in> snd ` set (user_requests s).
           request_status req = PENDING \<or> request_status req = APPROVED)"
    by (auto simp: has_active_requests_def active_user_requests_def is_active_def
        is_pending_def is_approved_def filter_empty_conv)
  have l401: "length reason = 401 \<longrightarrow>
        (\<exists>msg. RequestWithdrawal_validate ev reason s = Inl (InvalidEvent ev msg))"
    using bad by simp
  have l400: "length reason = 400 \<and> published s \<and> \<not> has_active_requests s \<longrightarrow>
        RequestWithdrawal_validate ev reason s = Inr ()"
    using ok by auto
  show ?thesis
    using ok bad act l401 l400 by blast
qed

theorem withdrawal_preconditions_witness:
  "RequestWithdrawal_validate (example_event 7 (RequestWithdrawal (replicate 400 CHR ''x'')))
       (replicate 400 CHR ''x'') published_example = Inr ()
   \<and> (\<exists>msg. RequestWithdrawal_validate
               (example_event 7 (RequestWithdrawal (replicate 401 CHR ''x'')))
               (replicate 401 CHR ''x'') published_example
             = Inl (InvalidEvent
                 (example_event 7 (RequestWithdrawal (replicate 401 CHR ''x''))) msg))
   \<and> (\<exists>msg. RequestWithdrawal_validate
               (example_event 7 (RequestWithdrawal ''wrong file''))
               ''wrong file'' example_submission
             = Inl (InvalidEvent (example_event 7 (RequestWithdrawal ''wrong file'')) msg))
   \<and> (\<exists>msg. RequestWithdrawal_validate
               (example_event 7 (RequestWithdrawal ''wrong file''))
               ''wrong file'' (submission_with_request APPROVED)
             = Inl (InvalidEvent (example_event 7 (RequestWithdrawal ''wrong file'')) msg))"
proof -
  have pub: "published published_example" "\<not> published example_submission"
    by (simp_all add: published_def example_defs PUBLISHED_def WORKING_def)
  have act: "\<not> has_active_requests published_example"
    "has_active_requests (submission_with_request APPROVED)"
    by (simp_all add: has_active_requests_def active_user_requests_def example_defs
        is_active_def is_approved_def)
  show ?thesis
    using pub act
      withdrawal_preconditions
        [of "example_event 7 (RequestWithdrawal (replicate 400 CHR ''x''))"
          "replicate 400 CHR ''x''" published_example]
      withdrawal_preconditions
        [of "example_event 7 (RequestWithdrawal (replicate 401 CHR ''x''))"
          "replicate 401 CHR ''x''" published_example]
      withdrawal_preconditions
        [of "example_event 7 (RequestWithdrawal ''wrong file'')"
          "''wrong file''" example_submission]
      withdrawal_preconditions
        [of "example_event 7 (RequestWithdrawal ''wrong file'')"
          "''wrong file''" "submission_with_request APPROVED"]
    by simp
qed

text \<open>
  Claim C7. When the submission has a request under the key \<open>r\<close>, projecting an
  \<open>ApproveRequest\<close>, \<open>RejectRequest\<close> or \<open>ApplyRequest\<close> for \<open>r\<close> returns the submission
  with the status of that request set to \<open>APPROVED\<close>, \<open>REJECTED\<close> or \<open>APPLIED\<close> and
  nothing else changed: the request keeps its other fields, every other key its
  request, the keys their order, and every field of the submission other than
  \<open>user_requests\<close> its value. Validation fails, with \<open>InvalidEvent\<close>, exactly when the
  identifier is not a key of \<open>user_requests\<close>.
\<close>

theorem request_resolution_frame:
  "(map_of (user_requests s) r = Some req \<longrightarrow>
      ApproveRequest_project (Some r) s =
        Inr (s\<lparr>user_requests :=
                 AList.update r (req\<lparr>request_status := APPROVED\<rparr>) (user_requests s)\<rparr>)
      \<and> RejectRequest_project (Some r) s =
        Inr (s\<lparr>user_requests :=
                 AList.update r (req\<lparr>request_status := REJECTED\<rparr>) (user_requests s)\<rparr>)
      \<and> ApplyRequest_project (Some r) s =
        Inr (s\<lparr>user_requests :=
                 AList.update r (req\<lparr>request_status := APPLIED\<rparr>) (user_requests s)\<rparr>)
      \<and> map_of (AList.update r (req\<lparr>request_status := st\<rparr>) (user_requests s)) r
          = Some (req\<lparr>request_status := st\<rparr>)
      \<and> (r' \<noteq> r \<longrightarrow>
            map_of (AList.update r (req\<lparr>request_status := st\<rparr>) (user_requests s)) r'
              = map_of (user_requests s) r')
      \<and> map fst (AList.update r (req\<lparr>request_status := st\<rparr>) (user_requests s))
          = map fst (user_requests s)
      \<and> (s\<lparr>user_requests := reqs\<rparr>)\<lparr>user_requests := user_requests s\<rparr> = s)
   \<and> (ApproveRequest_validate ev rid s =
        (if request_in rid (user_requests s) then Inr ()
         else Inl (InvalidEvent ev ''No such request'')))
   \<and> (RejectRequest_validate ev rid s =
        (if request_in rid (user_requests s) then Inr ()
         else Inl (InvalidEvent ev ''No such request'')))
   \<and> (ApplyRequest_validate ev rid s =
        (if request_in rid (user_requests s) then Inr ()
         else Inl (InvalidEvent ev ''No such request'')))
   \<and> (request_in (Some r) (user_requests s) \<longleftrightarrow> r \<in> fst ` set (user_requests s))
   \<and> \<not> request_in None (user_requests s)"
proof -
  have keys: "map fst (AList.update r v (user_requests s)) = map fst (user_requests s)"
    if "map_of (user_requests s) r = Some req" for v
  proof -
    have "r \<in> fst ` set (user_requests s)"
      using that by (metis map_of_eq_None_iff option.distinct(1))
    then show ?thesis
      by (simp add: update_keys)
  qed
  show ?thesis
    by (simp add: ApproveRequest_project_def RejectRequest_project_def
        ApplyRequest_project_def ApproveRequest_validate_def RejectRequest_validate_def
        ApplyRequest_validate_def update_conv' keys map_of_eq_None_iff)
qed

theorem request_resolution_frame_witness:
  "ApproveRequest_project (Some ''r1'') (submission_with_request PENDING)
     = Inr (submission_with_request APPROVED)
   \<and> RejectRequest_project (Some ''r1'') (submission_with_request PENDING)
     = Inr (submission_with_request REJECTED)
   \<and> ApplyRequest_project (Some ''r1'') (submission_with_request APPROVED)
     = Inr (submission_with_request APPLIED)
   \<and> ApproveRequest_validate (example_event 7 (ApproveRequest (Some ''r1'')))
        (Some ''r1'') (submission_with_request PENDING) = Inr ()
   \<and> ApproveRequest_validate (example_event 7 (ApproveRequest (Some ''r2'')))
        (Some ''r2'') (submission_with_request PENDING)
     = Inl (InvalidEvent (example_event 7 (ApproveRequest (Some ''r2''))) ''No such request'')"
  using request_resolution_frame [of "submission_with_request PENDING" "''r1''"
      "withdrawal_request PENDING"]
    request_resolution_frame [of "submission_with_request APPROVED" "''r1''"
      "withdrawal_request APPROVED"]
  by (simp add: example_defs ApproveRequest_validate_def)

text \<open>
  Claim C2, as the code has it. When the submission has a request under the key \<open>r\<close>,
  whatever the status of that request, applying a \<open>RejectRequest\<close>, an
  \<open>ApproveRequest\<close> or an \<open>ApplyRequest\<close> for \<open>r\<close> succeeds and sets the status to
  \<open>REJECTED\<close>, \<open>APPROVED\<close> or \<open>APPLIED\<close>: validation looks for the key only, and no
  status is final.
\<close>

theorem resolution_ignores_status:
  assumes "map_of (user_requests s) r = Some req"
  shows "(payload ev = RejectRequest (Some r) \<longrightarrow>
            apply_event env ev (Some s) =
              Inr (s\<lparr>user_requests :=
                       AList.update r (req\<lparr>request_status := REJECTED\<rparr>) (user_requests s)\<rparr>))
       \<and> (payload ev = ApproveRequest (Some r) \<longrightarrow>
            apply_event env ev (Some s) =
              Inr (s\<lparr>user_requests :=
                       AList.update r (req\<lparr>request_status := APPROVED\<rparr>) (user_requests s)\<rparr>))
       \<and> (payload ev = ApplyRequest (Some r) \<longrightarrow>
            apply_event env ev (Some s) =
              Inr (s\<lparr>user_requests :=
                       AList.update r (req\<lparr>request_status := APPLIED\<rparr>) (user_requests s)\<rparr>))"
  using assms
  by (simp add: apply_event_def validate_def project_def
      RejectRequest_validate_def RejectRequest_project_def
      ApproveRequest_validate_def ApproveRequest_project_def
      ApplyRequest_validate_def ApplyRequest_project_def)

theorem resolution_ignores_status_witness:
  "apply_event example_env (example_event 7 (RejectRequest (Some ''r1'')))
       (Some (submission_with_request APPLIED))
     = Inr (submission_with_request REJECTED)
   \<and> apply_event example_env (example_event 8 (ApplyRequest (Some ''r1'')))
       (Some (submission_with_request PENDING))
     = Inr (submission_with_request APPLIED)"
  using resolution_ignores_status [of "submission_with_request APPLIED" "''r1''"
      "withdrawal_request APPLIED" "example_event 7 (RejectRequest (Some ''r1''))" example_env]
    resolution_ignores_status [of "submission_with_request PENDING" "''r1''"
      "withdrawal_request PENDING" "example_event 8 (ApplyRequest (Some ''r1''))" example_env]
  by (simp add: example_defs)

text \<open>
  Claim C2 as the spec words it has the rejection of an approved request fail with
  \<open>InvalidEvent\<close>, and the statuses \<open>REJECTED\<close> and \<open>APPLIED\<close> never change again. On the
  example the request \<open>r1\<close> is approved and the rejection goes through; the rejected
  request is then approved again, and an applied request is rejected.
\<close>

theorem request_terminality_counterexample:
  "map_of (user_requests (submission_with_request APPROVED)) ''r1''
     = Some (withdrawal_request APPROVED)
   \<and> apply_event example_env (example_event 7 (RejectRequest (Some ''r1'')))
       (Some (submission_with_request APPROVED))
     = Inr (submission_with_request REJECTED)
   \<and> apply_event example_env (example_event 8 (ApproveRequest (Some ''r1'')))
       (Some (submission_with_request REJECTED))
     = Inr (submission_with_request APPROVED)
   \<and> apply_event example_env (example_event 9 (RejectRequest (Some ''r1'')))
       (Some (submission_with_request APPLIED))
     = Inr (submission_with_request REJECTED)
   \<and> submission_with_request REJECTED \<noteq> submission_with_request APPROVED
   \<and> submission_with_request REJECTED \<noteq> submission_with_request APPLIED"
  by (simp add: example_defs apply_event_def validate_def project_def
      RejectRequest_validate_def RejectRequest_project_def
      ApproveRequest_validate_def ApproveRequest_project_def
      REJECTED_def APPROVED_def APPLIED_def)

section \<open>Sets of events\<close>

text \<open>Two events compare equal when their hashes are equal, so a set of events is a
  list without two elements of the same hash.\<close>

lemma event_eq_hash: "event_eq env = (\<lambda>x y. event_hash env x = event_hash env y)"
  by (intro ext) (simp add: event_eq_def)

lemma set_add_hash:
  "set_add (\<lambda>x y. h x = h y) xs x = (if h x \<in> h ` set xs then xs else xs @ [x])"
  by (induction xs) auto

lemma set_add_known:
  "h x \<in> h ` set xs \<Longrightarrow> set_add (\<lambda>x y. h x = h y) xs x = xs"
  by (simp add: set_add_hash)

lemma set_add_new:
  "h x \<notin> h ` set xs \<Longrightarrow> set_add (\<lambda>x y. h x = h y) xs x = xs @ [x]"
  by (simp add: set_add_hash)

lemma foldl_set_add_image:
  "h ` set (foldl (set_add (\<lambda>x y. h x = h y)) a zs) = h ` set a \<union> h ` set zs"
  by (induction zs arbitrary: a) (auto simp: set_add_hash)

lemma foldl_set_add_subset:
  "set (foldl (set_add (\<lambda>x y. h x = h y)) a zs) \<subseteq> set a \<union> set zs"
proof (induction zs arbitrary: a)
  case Nil
  then show ?case by simp
next
  case (Cons z zs)
  have "set (set_add (\<lambda>x y. h x = h y) a z) \<subseteq> insert z (set a)"
    by (auto simp: set_add_hash)
  with Cons [of "set_add (\<lambda>x y. h x = h y) a z"] show ?case
    by auto
qed

lemma foldl_set_add_distinct:
  "distinct (map h a) \<Longrightarrow> distinct (map h (foldl (set_add (\<lambda>x y. h x = h y)) a zs))"
  by (induction zs arbitrary: a) (auto simp: set_add_hash)

text \<open>Adding the elements of \<open>set(zs)\<close> to a set is adding the elements of \<open>zs\<close>.\<close>

lemma foldl_set_add_py_set:
  "foldl (set_add (\<lambda>x y. h x = h y)) a (foldl (set_add (\<lambda>x y. h x = h y)) [] zs)
     = foldl (set_add (\<lambda>x y. h x = h y)) a zs"
proof (induction zs rule: rev_induct)
  case Nil
  then show ?case by simp
next
  case (snoc z zs)
  let ?f = "set_add (\<lambda>x y. h x = h y)"
  have step: "foldl ?f b (zs @ [z]) = ?f (foldl ?f b zs) z" for b
    by simp
  show ?case
  proof (cases "h z \<in> h ` set zs")
    case True
    then have in1: "h z \<in> h ` set (foldl ?f [] zs)"
      and in2: "h z \<in> h ` set (foldl ?f a zs)"
      by (simp_all only: foldl_set_add_image) simp_all
    have "?f (foldl ?f [] zs) z = foldl ?f [] zs"
      using in1 by (rule set_add_known)
    moreover have "?f (foldl ?f a zs) z = foldl ?f a zs"
      using in2 by (rule set_add_known)
    ultimately show ?thesis
      using snoc by (simp only: step)
  next
    case False
    then have "h z \<notin> h ` set (foldl ?f [] zs)"
      by (simp only: foldl_set_add_image) simp
    then have "?f (foldl ?f [] zs) z = foldl ?f [] zs @ [z]"
      by (rule set_add_new)
    then have "foldl ?f a (foldl ?f [] (zs @ [z])) = foldl ?f a (foldl ?f [] zs @ [z])"
      by (simp only: step)
    also have "\<dots> = ?f (foldl ?f a (foldl ?f [] zs)) z"
      by simp
    also have "\<dots> = ?f (foldl ?f a zs) z"
      using snoc by (simp only:)
    also have "\<dots> = foldl ?f a (zs @ [z])"
      by (simp only: step)
    finally show ?thesis .
  qed
qed

text \<open>An element whose hash is in the set already makes no difference.\<close>

lemma foldl_set_add_known:
  assumes "h e \<in> h ` set a"
  shows "foldl (set_add (\<lambda>x y. h x = h y)) a (xs @ e # ys)
           = foldl (set_add (\<lambda>x y. h x = h y)) a (xs @ ys)"
proof -
  let ?f = "set_add (\<lambda>x y. h x = h y)"
  have "h e \<in> h ` set (foldl ?f a xs)"
    using assms by (simp only: foldl_set_add_image) simp
  then have "?f (foldl ?f a xs) e = foldl ?f a xs"
    by (rule set_add_known)
  then show ?thesis
    by simp
qed

lemma union_py_set:
  "set_union (event_eq env) (py_set (event_eq env) prior) (py_set (event_eq env) events)
     = foldl (set_add (event_eq env)) (py_set (event_eq env) prior) events"
  unfolding set_union_def py_set_def event_eq_hash by (rule foldl_set_add_py_set)

lemma py_set_distinct: "distinct (map (event_hash env) (py_set (event_eq env) xs))"
  unfolding py_set_def event_eq_hash by (rule foldl_set_add_distinct) simp


lemma py_set_subset: "set (py_set (event_eq env) xs) \<subseteq> set xs"
  unfolding py_set_def event_eq_hash
  using foldl_set_add_subset [of "event_hash env" "[]" xs] by simp







lemma merged_events_subset:
  assumes "iterates env"
  shows "set (merged_events env prior events) \<subseteq> set prior \<union> set events"
proof -
  let ?U = "set_union (event_eq env) (py_set (event_eq env) prior)
              (py_set (event_eq env) events)"
  have "mset (set_iter env [prior, events] ?U) = mset ?U"
    using assms by (simp add: iterates_def)
  then have "set (set_iter env [prior, events] ?U) = set ?U"
    by (rule mset_eq_setD)
  moreover have "set ?U \<subseteq> set (py_set (event_eq env) prior) \<union> set events"
  proof -
    have "set ?U = set (foldl (set_add (event_eq env)) (py_set (event_eq env) prior) events)"
      by (simp only: union_py_set)
    also have "\<dots> \<subseteq> set (py_set (event_eq env) prior) \<union> set events"
      unfolding event_eq_hash by (rule foldl_set_add_subset)
    finally show ?thesis .
  qed
  ultimately show ?thesis
    using py_set_subset [of env prior] by (auto simp: merged_events_def)
qed

section \<open>The loop of \<open>save\<close>\<close>

text \<open>The loop handles its events from left to right: running it on \<open>xs @ ys\<close> is
  running it on \<open>xs\<close> and, unless that raised, on \<open>ys\<close> from where it ended.\<close>

lemma save_loop_append:
  "save_loop env sid (xs @ ys) before applied st =
     (case save_loop env sid xs before applied st of
        (Inl err, st') \<Rightarrow> (Inl err, st')
      | (Inr (b, a), st') \<Rightarrow> save_loop env sid ys b a st')"
proof (induction xs arbitrary: before applied st)
  case Nil
  then show ?case by simp
next
  case (Cons x xs)
  show ?case
    by (simp add: Cons Let_def split: sum.splits prod.splits)
qed

lemma committed_fill [simp]: "committed (fill_submission_id sid ev) = committed ev"
  by (simp add: fill_submission_id_def)

text \<open>Events that are committed already are applied and not persisted again.\<close>

lemma save_loop_committed:
  "\<forall>ev \<in> set evs. committed ev \<Longrightarrow> snd (save_loop env sid evs before applied st) = st"
  by (induction evs arbitrary: before applied) (simp_all add: Let_def split: sum.splits)


lemma save_store:
  assumes "events \<noteq> []" "load_prior env events sid st = Inr (before, prior)"
  shows "snd (save env events sid st)
           = snd (save_loop env sid (merged_events env prior events) before [] st)"
  using assms by (simp add: save_def split: prod.splits sum.splits option.splits)

lemmas core_defs = save_def load_prior_def merged_events_def set_union_def py_set_def
  event_eq_def event_hash_def event_id_def example_env_def store_commit_def
  store_get_submission_def fill_submission_id_def apply_event_def validate_def project_def
  ApproveRequest_validate_def RejectRequest_validate_def ApproveRequest_project_def
  RejectRequest_project_def Let_def numeral_eq_Suc

section \<open>Properties of \<open>save\<close>\<close>

text \<open>The loop stops at the first event that does not apply, with the store as the
  events before it left it; committed events leave it alone.\<close>

lemma save_stops_at_invalid_event:
  assumes nonempty: "events \<noteq> []"
    and loaded: "load_prior env events sid st = Inr (before, prior)"
    and order: "merged_events env prior events = pre @ ev # post"
    and prefix: "save_loop env sid pre before [] st = (Inr (b, applied), st')"
    and invalid: "apply_event env (fill_submission_id sid ev) b = Inl err"
  shows "save env events sid st = (Inl err, st')
       \<and> ((\<forall>p \<in> set pre. committed p) \<longrightarrow> st' = st)"
proof -
  have "save_loop env sid (pre @ ev # post) before [] st = (Inl err, st')"
    using prefix invalid by (simp add: save_loop_append)
  then have "save env events sid st = (Inl err, st')"
    using nonempty loaded order by (simp add: save_def)
  moreover have "st' = st" if "\<forall>p \<in> set pre. committed p"
    using save_loop_committed [OF that, of env sid before "[]" st] prefix by simp
  ultimately show ?thesis by simp
qed

text \<open>An uncommitted event that applies is committed before the next event is
  looked at: when the next one fails, the store is the one that \<open>commit\<close> left.\<close>

lemma save_loop_commit_then_invalid:
  assumes "\<not> committed e1"
    and "apply_event env (fill_submission_id sid e1) before = Inr a1"
    and "commit env (fill_submission_id sid e1) before a1 st = (Inr (a1', cons), st1)"
    and "apply_event env (fill_submission_id sid e2) (Some a1') = Inl err"
  shows "save_loop env sid (e1 # e2 # post) before applied st = (Inl err, st1)"
  using assms by simp

text \<open>
  Claim C1. When an event of a batch fails validation with \<open>InvalidEvent\<close>, no event
  of the batch is to be persisted and the prior state is to stay as it was; the
  docstring of \<open>save\<close> has the entire operation aborted. The code does otherwise. A
  creation event and an approval of a request that does not exist are saved in one
  call, on the empty store, where no submission 1 exists. The call raises
  \<open>InvalidEvent\<close> for the approval and leaves the store with the creation event,
  marked committed, and the state it produced: submission 1 now exists, with the
  creation event as its history.
\<close>

theorem save_partial_persistence:
  "save example_env [example_creation, approve_r1] None []
     = (Inl (InvalidEvent approve_r1 ''No such request''),
        [(stored_creation, stored_submission)])
   \<and> get_submission example_env 1 [] = Inl NoSuchSubmission
   \<and> get_submission example_env 1 [(stored_creation, stored_submission)]
       = Inr (stored_submission, [stored_creation])
   \<and> committed stored_creation
   \<and> payload stored_creation = payload example_creation"
  by (simp add: core_defs example_defs)

text \<open>
  Claim C4, as the code has it. Let \<open>U\<close> be the union of the set of prior events and
  the set of new events, and \<open>M\<close> the list that \<open>save\<close> sorts from it and then runs its
  loop over, from left to right. \<open>M\<close> is in ascending order of creation timestamp; it
  has the elements of \<open>U\<close>, which are events of the two lists, no two of the same hash
  and one for every hash that occurs. The sort is stable and its key is the timestamp
  alone: events with the same timestamp come in the order in which the set yields
  them. When no two elements of \<open>U\<close> have the same timestamp that order does not
  matter.
\<close>

theorem merge_then_sort:
  assumes it: "iterates env"
    and U: "U = set_union (event_eq env) (py_set (event_eq env) prior)
                  (py_set (event_eq env) events)"
    and M: "M = merged_events env prior events"
  shows "sorted (map event_created M)
       \<and> mset M = mset U
       \<and> distinct (map (event_hash env) M)
       \<and> event_hash env ` set M = event_hash env ` (set prior \<union> set events)
       \<and> set M \<subseteq> set prior \<union> set events
       \<and> filter (\<lambda>e. event_created e = t) M
           = filter (\<lambda>e. event_created e = t) (set_iter env [prior, events] U)
       \<and> (distinct (map event_created U) \<longrightarrow> M = sort_key event_created U)
       \<and> (events \<noteq> [] \<and> load_prior env events sid st = Inr (before, prior) \<longrightarrow>
            snd (save env events sid st) = snd (save_loop env sid M before [] st))
       \<and> (M = xs @ ys \<longrightarrow>
            save_loop env sid M before [] st =
              (case save_loop env sid xs before [] st of
                 (Inl err, st') \<Rightarrow> (Inl err, st')
               | (Inr (b, a), st') \<Rightarrow> save_loop env sid ys b a st'))"
proof -
  let ?h = "event_hash env"
  have perm: "mset (set_iter env [prior, events] U) = mset U"
    using it by (simp add: iterates_def)
  have M': "M = sort_key event_created (set_iter env [prior, events] U)"
    using U M by (simp add: merged_events_def)
  have mM: "mset M = mset U"
    using perm M' by simp
  have sM: "set M = set U"
    using mM by (rule mset_eq_setD)
  have U': "U = foldl (set_add (event_eq env)) (py_set (event_eq env) prior) events"
    using U by (simp add: union_py_set)
  have dU: "distinct (map ?h U)"
    unfolding U' event_eq_hash
    using py_set_distinct [of env prior]
    by (intro foldl_set_add_distinct) (simp add: event_eq_hash)
  have "mset (map ?h M) = mset (map ?h U)"
    using mM by simp
  then have dM: "distinct (map ?h M)"
    using dU by (metis mset_eq_imp_distinct_iff)
  have iU: "?h ` set U = ?h ` (set prior \<union> set events)"
    unfolding U' py_set_def event_eq_hash
    by (simp add: foldl_set_add_image image_Un)
  have subM: "set M \<subseteq> set prior \<union> set events"
    unfolding M using it by (rule merged_events_subset)
  have stable: "filter (\<lambda>e. event_created e = t) M
           = filter (\<lambda>e. event_created e = t) (set_iter env [prior, events] U)"
    unfolding M' by (rule sort_key_stable)
  have det: "M = sort_key event_created U" if "distinct (map event_created U)"
  proof -
    have "inj_on event_created (set U)"
      using that by (simp add: distinct_map)
    moreover have "sorted (map event_created M)"
      unfolding M' by simp
    ultimately have "sort_key event_created U = M"
      using mM by (intro sort_key_inj_key_eq) simp_all
    then show ?thesis by simp
  qed
  have runs: "snd (save env events sid st) = snd (save_loop env sid M before [] st)"
    if "events \<noteq> []" "load_prior env events sid st = Inr (before, prior)"
    unfolding M using that by (rule save_store)
  have inorder: "save_loop env sid M before [] st =
              (case save_loop env sid xs before [] st of
                 (Inl err, st') \<Rightarrow> (Inl err, st')
               | (Inr (b, a), st') \<Rightarrow> save_loop env sid ys b a st')"
    if "M = xs @ ys"
    unfolding that by (rule save_loop_append)
  have srt: "sorted (map event_created M)"
    unfolding M' by simp
  show ?thesis
    using srt mM dM iU subM stable det sM runs inorder by blast
qed

theorem merge_then_sort_witness:
  "iterates example_env
   \<and> merged_events example_env [] [late_reject_r1, approve_r1] = [approve_r1, late_reject_r1]
   \<and> merged_events example_env [] [approve_r1, late_reject_r1] = [approve_r1, late_reject_r1]"
proof -
  have it: "iterates example_env"
    by (simp add: iterates_def example_env_def)
  have hashes: "event_hash example_env approve_r1 \<noteq> event_hash example_env late_reject_r1"
    by (simp add: core_defs example_defs)
  have u1: "set_union (event_eq example_env) (py_set (event_eq example_env) [])
             (py_set (event_eq example_env) [late_reject_r1, approve_r1])
           = [late_reject_r1, approve_r1]"
    using hashes by (simp add: set_union_def py_set_def event_eq_def eq_commute)
  have u2: "set_union (event_eq example_env) (py_set (event_eq example_env) [])
             (py_set (event_eq example_env) [approve_r1, late_reject_r1])
           = [approve_r1, late_reject_r1]"
    using hashes by (simp add: set_union_def py_set_def event_eq_def)
  have ts: "event_created approve_r1 = 7" "event_created late_reject_r1 = 9"
    by (simp_all add: example_defs)
  show ?thesis
    using it
      merge_then_sort [OF it u1 [symmetric] refl]
      merge_then_sort [OF it u2 [symmetric] refl]
    by (simp add: ts)
qed

text \<open>
  Claim C4 as the spec words it has ties broken by the event identifier, so that the
  order of application and the resulting state do not depend on the order in which
  the events were passed. On the example an approval and a rejection of the same
  request carry the same timestamp. With a set that yields its elements in insertion
  order they are applied in the order in which they were passed, with one that yields
  them in the opposite order the other way round, and the request ends up rejected in
  one case and approved in the other.
\<close>

theorem tie_order_counterexample:
  "event_created approve_r1 = event_created reject_r1
   \<and> event_id example_env approve_r1 = ''ApproveRequest:user-1234:r1:IIIIIII''
   \<and> event_id example_env reject_r1 = ''RejectRequest:user-1234:r1:IIIIIII''
   \<and> merged_events example_env [] [approve_r1, reject_r1] = [approve_r1, reject_r1]
   \<and> merged_events example_env [] [reject_r1, approve_r1] = [reject_r1, approve_r1]
   \<and> merged_events (example_env\<lparr>set_iter := \<lambda>built. rev\<rparr>) [] [approve_r1, reject_r1]
       = [reject_r1, approve_r1]
   \<and> fst (save_loop example_env (Some 1) [approve_r1, reject_r1]
            (Some (submission_with_request PENDING)) [] [])
       = Inr (Some ((submission_with_request REJECTED)\<lparr>submission_id := Some 1\<rparr>),
              [approve_r1\<lparr>event_submission_id := Some 1, committed := True\<rparr>,
               reject_r1\<lparr>event_submission_id := Some 1, committed := True\<rparr>])
   \<and> fst (save_loop example_env (Some 1) [reject_r1, approve_r1]
            (Some (submission_with_request PENDING)) [] [])
       = Inr (Some ((submission_with_request APPROVED)\<lparr>submission_id := Some 1\<rparr>),
              [reject_r1\<lparr>event_submission_id := Some 1, committed := True\<rparr>,
               approve_r1\<lparr>event_submission_id := Some 1, committed := True\<rparr>])"
  by (simp add: core_defs example_defs)



text \<open>
  Between events of the same timestamp the duplicate can make a difference: the
  merged list has the same events, their order need not be the same. With sets that
  iterate as in \<open>layout_env\<close>, the approval and the rejection of the same timestamp
  change places when a copy of the stored creation event is passed along.
\<close>

lemma duplicate_can_reorder_ties:
  "iterates layout_env
   \<and> merged_events layout_env [stored_creation] [approve_r1, reject_r1]
       = [stored_creation, approve_r1, reject_r1]
   \<and> merged_events layout_env [stored_creation] [approve_r1, example_creation, reject_r1]
       = [stored_creation, reject_r1, approve_r1]"
proof -
  have "mset (if length (concat built) = length xs then xs else rev xs) = mset xs"
    for built :: "event list list" and xs :: "event list"
    by simp
  then have it: "iterates layout_env"
    by (simp add: iterates_def layout_env_def example_env_def)
  have without: "merged_events layout_env [stored_creation] [approve_r1, reject_r1]
       = [stored_creation, approve_r1, reject_r1]"
    by (simp add: layout_env_def core_defs example_defs)
  have along: "merged_events layout_env [stored_creation]
                 [approve_r1, example_creation, reject_r1]
       = [stored_creation, reject_r1, approve_r1]"
    by (simp add: layout_env_def core_defs example_defs)
  show ?thesis
    using it without along by (intro conjI)
qed

end
